theory Spec2Isabelle
  imports Main
begin

section \<open>AppImageLauncherFS: the registry, the path resolver and the read handlers\<close>

text \<open>
  A shallow embedding of \<^verbatim>\<open>src/fusefs/fs.cpp\<close> (class
  \<^verbatim>\<open>AppImageLauncherFS::PrivateData\<close>) and of the exception classes of
  \<^verbatim>\<open>src/fusefs/error.h\<close>.

  \<^item> C++ exceptions are values of the datatype \<open>exn\<close>; a function that can throw
    returns an \<open>outcome\<close> together with the state as the throw leaves it.
  \<^item> Undefined behaviour with no fixed result in the compiled program
    (\<^verbatim>\<open>std::string::back()\<close> on an empty string, reads before the start of an array)
    is the outcome \<open>Undefined\<close>. Signed overflow of \<^verbatim>\<open>counter\<close> is what the
    compiled program does: the counter wraps around from \<open>INT_MAX\<close> to \<open>INT_MIN\<close>.
  \<^item> The static members \<^verbatim>\<open>registeredAppImages\<close> and \<^verbatim>\<open>counter\<close> are the
    record \<open>fs_state\<close>, passed in and returned.
  \<^item> The environment (what \<^verbatim>\<open>stat\<close> and \<^verbatim>\<open>open\<close> answer, the working
    directory, and the comparison of Boost.Filesystem paths) is the record \<open>os\<close>, a
    parameter of every call, so the disk may differ from one call to the next.
  \<^item> \<^verbatim>\<open>int\<close> is 32 bits, \<^verbatim>\<open>size_t\<close> 64 bits unsigned and \<^verbatim>\<open>off_t\<close>
    64 bits signed; values are HOL integers and every wrap-around is written out.
\<close>

subsection \<open>Integers, characters and exceptions\<close>

definition INT_MAX :: int where
  "INT_MAX = 2147483647"

definition INT_MIN :: int where
  "INT_MIN = - 2147483648"

definition INT32_MAX :: int where
  "INT32_MAX = 2147483647"

definition SIZE_MOD :: int where
  \<comment> \<open>\<^verbatim>\<open>size_t\<close> arithmetic is modulo \<open>2 ^ 64\<close>\<close>
  "SIZE_MOD = 18446744073709551616"

definition EIO :: int where
  "EIO = 5"

definition ENOENT :: int where
  "ENOENT = 2"

definition NUL :: char where
  "NUL = CHR 0x00"

text \<open>
  The classes of \<^verbatim>\<open>error.h\<close>, all derived from \<^verbatim>\<open>AppImageLauncherFSError\<close>, and
  the two exceptions of \<^verbatim>\<open>std::stoi\<close> and \<^verbatim>\<open>bf::filesystem_error\<close>, which are not.
\<close>

datatype exn =
    AlreadyRunningError
  | CouldNotOpenFileError
  | FileNotFoundError
  | InvalidPathError
  | CouldNotFindRegisteredAppImageError
  | AppImageAlreadyRegisteredError int
  | DuplicateRegisteredAppImageError int int
  | Std_invalid_argument
  | Std_out_of_range
  | Boost_filesystem_error

fun is_AppImageLauncherFSError :: "exn \<Rightarrow> bool" where
  "is_AppImageLauncherFSError Std_invalid_argument = False"
| "is_AppImageLauncherFSError Std_out_of_range = False"
| "is_AppImageLauncherFSError Boost_filesystem_error = False"
| "is_AppImageLauncherFSError e = True"

datatype 'a outcome = Returned 'a | Thrown exn | Undefined

subsection \<open>Decimal numerals: \<^verbatim>\<open>operator<<(int)\<close> and \<^verbatim>\<open>std::stoi\<close>\<close>

definition digit_char :: "nat \<Rightarrow> char" where
  "digit_char d = char_of (48 + d)"

fun digits_of_nat :: "nat \<Rightarrow> string" where
  "digits_of_nat n =
     (if n < 10 then [digit_char n]
      else digits_of_nat (n div 10) @ [digit_char (n mod 10)])"

declare digits_of_nat.simps [simp del]

definition show_int :: "int \<Rightarrow> string" where
  \<comment> \<open>what \<^verbatim>\<open>ostream << int\<close> writes before padding\<close>
  "show_int i = (if i < 0 then CHR ''-'' # digits_of_nat (nat (- i)) else digits_of_nat (nat i))"

definition generateFilenameForId :: "int \<Rightarrow> string" where
  \<comment> \<open>\<^verbatim>\<open>filename << std::setfill('0') << std::setw(4) << id << ".AppImage"\<close>: the
      field is right-adjusted, so the fill characters come first, before a sign too\<close>
  "generateFilenameForId i =
     replicate (4 - length (show_int i)) (CHR ''0'') @ show_int i @ ''.AppImage''"

definition isspace :: "char \<Rightarrow> bool" where
  \<comment> \<open>the C locale: space, and \<^verbatim>\<open>\t \n \v \f \r\<close>\<close>
  "isspace c = (of_char c = (32::nat) \<or> (9 \<le> (of_char c :: nat) \<and> (of_char c :: nat) \<le> 13))"

definition isdigit :: "char \<Rightarrow> bool" where
  "isdigit c = (48 \<le> (of_char c :: nat) \<and> (of_char c :: nat) \<le> 57)"

definition digits_value :: "string \<Rightarrow> int" where
  "digits_value ds = foldl (\<lambda>a c. 10 * a + (of_char c - 48)) 0 ds"

definition stoi :: "string \<Rightarrow> exn + int" where
  \<comment> \<open>\<^verbatim>\<open>std::stoi(str)\<close>, base 10, through \<^verbatim>\<open>strtol\<close>: white space is skipped, one
      sign is read, then the longest run of digits; no digit is
      \<^verbatim>\<open>std::invalid_argument\<close>, a value outside \<^verbatim>\<open>int\<close> is \<^verbatim>\<open>std::out_of_range\<close>\<close>
  "stoi str =
     (let s1 = dropWhile isspace str;
          neg = (case s1 of [] \<Rightarrow> False | c # _ \<Rightarrow> c = CHR ''-'');
          s2 = (case s1 of [] \<Rightarrow> [] | c # r \<Rightarrow> if c = CHR ''-'' \<or> c = CHR ''+'' then r else s1);
          ds = takeWhile isdigit s2;
          v = (if neg then - digits_value ds else digits_value ds)
      in if ds = [] then Inl Std_invalid_argument
         else if v < INT_MIN \<or> INT_MAX < v then Inl Std_out_of_range
         else Inr v)"

subsection \<open>The operating system\<close>

datatype file_type =
  file_not_found | regular_file | directory_file | other_file | status_error

record os =
  status :: "string \<Rightarrow> file_type"
  open_rdonly :: "string \<Rightarrow> int"
  current_path :: string
  path_equal :: "string \<Rightarrow> string \<Rightarrow> bool"

text \<open>
  \<open>status os p\<close> is what \<^verbatim>\<open>stat\<close> finds at \<open>p\<close>: \<open>file_not_found\<close> when it
  fails with \<^verbatim>\<open>ENOENT\<close> or \<^verbatim>\<open>ENOTDIR\<close>, \<open>status_error\<close> when it fails with any
  other error (\<^verbatim>\<open>ENAMETOOLONG\<close>, \<^verbatim>\<open>EACCES\<close>, \<^verbatim>\<open>ELOOP\<close>).
  \<open>open_rdonly os p\<close> is what \<^verbatim>\<open>::open(p, O_RDONLY)\<close> returns (a descriptor, or a
  negative number). \<open>path_equal os p q\<close> is \<^verbatim>\<open>operator==\<close> of \<^verbatim>\<open>bf::path\<close>, which
  compares two paths element by element, not as strings; it is a parameter, and every
  theorem holds whatever relation it is.
\<close>

definition bf_status :: "os \<Rightarrow> string \<Rightarrow> exn + file_type" where
  \<comment> \<open>\<^verbatim>\<open>bf::status(p)\<close> as the throwing overloads of \<^verbatim>\<open>bf::exists\<close> and
      \<^verbatim>\<open>bf::is_regular_file\<close> call it: \<^verbatim>\<open>stat("")\<close> fails with \<^verbatim>\<open>ENOENT\<close> on
      every POSIX system; an error other than not-found is thrown as
      \<^verbatim>\<open>bf::filesystem_error\<close>\<close>
  "bf_status os p =
     (if p = [] then Inr file_not_found
      else if status os p = status_error then Inl Boost_filesystem_error
      else Inr (status os p))"

definition bf_exists :: "os \<Rightarrow> string \<Rightarrow> exn + bool" where
  "bf_exists os p =
     (case bf_status os p of Inl e \<Rightarrow> Inl e | Inr t \<Rightarrow> Inr (t \<noteq> file_not_found))"

definition bf_is_regular_file :: "os \<Rightarrow> string \<Rightarrow> exn + bool" where
  "bf_is_regular_file os p =
     (case bf_status os p of Inl e \<Rightarrow> Inl e | Inr t \<Rightarrow> Inr (t = regular_file))"

definition bf_absolute :: "os \<Rightarrow> string \<Rightarrow> string" where
  \<comment> \<open>\<^verbatim>\<open>bf::absolute(p)\<close>: an absolute path is kept, a relative one is appended to
      the working directory, with a separator unless that ends with one\<close>
  "bf_absolute os p =
     (case p of
        [] \<Rightarrow> current_path os
      | c # _ \<Rightarrow>
          if c = CHR ''/'' then p
          else if current_path os = [] \<or> last (current_path os) = CHR ''/''
          then current_path os @ p
          else current_path os @ CHR ''/'' # p)"

definition c_str :: "string \<Rightarrow> string" where
  \<comment> \<open>the characters a C string function sees: those before the first NUL\<close>
  "c_str s = takeWhile (\<lambda>c. c \<noteq> NUL) s"

subsection \<open>Registry entries and the registry\<close>

record RegisteredAppImage =
  r_id :: int
  r_path :: string
  r_fd :: int

definition default_RegisteredAppImage :: RegisteredAppImage where
  \<comment> \<open>\<^verbatim>\<open>RegisteredAppImage() : _id(-1), _fd(-1)\<close>, with an empty path\<close>
  "default_RegisteredAppImage = \<lparr>r_id = - 1, r_path = [], r_fd = - 1\<rparr>"

definition checkExistsOnDisk :: "os \<Rightarrow> RegisteredAppImage \<Rightarrow> exn + bool" where
  "checkExistsOnDisk os r = bf_is_regular_file os (r_path r)"

text \<open>
  \<^verbatim>\<open>std::unordered_map<int, RegisteredAppImage>\<close> is an association list with at most
  one pair per key; the position of a pair stands for the unspecified iteration order.
\<close>

type_synonym registered_appimages_t = "(int \<times> RegisteredAppImage) list"

definition emplace :: "int \<Rightarrow> RegisteredAppImage \<Rightarrow> registered_appimages_t \<Rightarrow> registered_appimages_t" where
  \<comment> \<open>\<^verbatim>\<open>emplace\<close> inserts nothing when the key is present\<close>
  "emplace k v m = (case map_of m k of None \<Rightarrow> (k, v) # m | Some _ \<Rightarrow> m)"

definition erase :: "int \<Rightarrow> registered_appimages_t \<Rightarrow> registered_appimages_t" where
  "erase k m = filter (\<lambda>kv. fst kv \<noteq> k) m"

definition index :: "int \<Rightarrow> registered_appimages_t \<Rightarrow> RegisteredAppImage \<times> registered_appimages_t" where
  \<comment> \<open>\<^verbatim>\<open>operator[]\<close>: a missing key is inserted with a default-constructed value\<close>
  "index k m =
     (case map_of m k of
        Some v \<Rightarrow> (v, m)
      | None \<Rightarrow> (default_RegisteredAppImage, (k, default_RegisteredAppImage) # m))"

record fs_state =
  registeredAppImages :: registered_appimages_t
  counter :: int

definition initial_state :: fs_state where
  "initial_state = \<lparr>registeredAppImages = [], counter = 0\<rparr>"

subsection \<open>\<^verbatim>\<open>registerAppImage\<close>\<close>

definition registerAppImage :: "os \<Rightarrow> fs_state \<Rightarrow> string \<Rightarrow> int outcome \<times> fs_state" where
  \<comment> \<open>\<^verbatim>\<open>std::find_if\<close> compares the path as given with the stored paths by
      \<^verbatim>\<open>bf::path::operator==\<close> and stops at the first match in iteration order.
      \<^verbatim>\<open>counter++\<close> wraps around at \<open>INT_MAX\<close>. The counter is incremented before the
      constructor opens the file, so a failed open uses up an id. The constructor and the
      copy that \<^verbatim>\<open>emplace\<close> stores both open the file; \<open>open_rdonly\<close> answers for
      both.\<close>
  "registerAppImage os s p =
     (case bf_exists os p of
        Inl e \<Rightarrow> (Thrown e, s)
      | Inr found \<Rightarrow>
          if \<not> found then (Thrown FileNotFoundError, s)
          else
            case find (\<lambda>kv. path_equal os p (r_path (snd kv))) (registeredAppImages s) of
              Some kv \<Rightarrow> (Thrown (AppImageAlreadyRegisteredError (fst kv)), s)
            | None \<Rightarrow>
                let i = counter s;
                    s1 = s\<lparr>counter := (if i = INT_MAX then INT_MIN else i + 1)\<rparr>;
                    d = open_rdonly os (bf_absolute os p)
                in if d < 0 then (Thrown CouldNotOpenFileError, s1)
                   else (Returned i,
                         s1\<lparr>registeredAppImages :=
                              emplace i \<lparr>r_id = i, r_path = bf_absolute os p, r_fd = d\<rparr>
                                (registeredAppImages s1)\<rparr>))"

subsection \<open>\<^verbatim>\<open>mapPathToRegisteredAppImage\<close>\<close>

definition mapPathToRegisteredAppImage ::
    "os \<Rightarrow> fs_state \<Rightarrow> string \<Rightarrow> RegisteredAppImage outcome \<times> fs_state" where
  \<comment> \<open>\<^verbatim>\<open>strsep(&p, ".")\<close> cuts the C string at its first dot; only
      \<^verbatim>\<open>std::invalid_argument\<close> is caught around \<^verbatim>\<open>std::stoi\<close>\<close>
  "mapPathToRegisteredAppImage os s path =
     (case takeWhile (\<lambda>c. c \<noteq> CHR ''.'') (c_str path) of
        [] \<Rightarrow> (Thrown InvalidPathError, s)
      | c # firstPart \<Rightarrow>
          if c \<noteq> CHR ''/'' then (Thrown InvalidPathError, s)
          else
            case stoi firstPart of
              Inl e \<Rightarrow>
                (if e = Std_invalid_argument then (Thrown CouldNotFindRegisteredAppImageError, s)
                 else (Thrown e, s))
            | Inr i \<Rightarrow>
                if path \<noteq> CHR ''/'' # generateFilenameForId i
                then (Thrown CouldNotFindRegisteredAppImageError, s)
                else
                  let (r, m) = index i (registeredAppImages s)
                  in case checkExistsOnDisk os r of
                       Inl e \<Rightarrow> (Thrown e, s\<lparr>registeredAppImages := m\<rparr>)
                     | Inr found \<Rightarrow>
                         if \<not> found
                         then (Thrown CouldNotFindRegisteredAppImageError,
                               s\<lparr>registeredAppImages := erase i m\<rparr>)
                         else (Returned r, s\<lparr>registeredAppImages := m\<rparr>))"

subsection \<open>The listing text and the directory listing\<close>

fun text_map_loop :: "os \<Rightarrow> registered_appimages_t \<Rightarrow> exn + (string \<times> int list)" where
  \<comment> \<open>the first loop of \<^verbatim>\<open>generateTextMap\<close>: the text and the ids to remove\<close>
  "text_map_loop os [] = Inr ([], [])"
| "text_map_loop os (kv # m) =
     (case checkExistsOnDisk os (snd kv) of
        Inl e \<Rightarrow> Inl e
      | Inr found \<Rightarrow>
          (case text_map_loop os m of
             Inl e \<Rightarrow> Inl e
           | Inr (text_map, idsToRemove) \<Rightarrow>
               if found
               then Inr (generateFilenameForId (fst kv) @ '' -> '' @ r_path (snd kv) @ [CHR 0x0A]
                           @ text_map, idsToRemove)
               else Inr (text_map, fst kv # idsToRemove)))"

definition generateTextMap :: "os \<Rightarrow> fs_state \<Rightarrow> string outcome \<times> fs_state" where
  \<comment> \<open>an exception of the first loop leaves before anything is erased\<close>
  "generateTextMap os s =
     (case text_map_loop os (registeredAppImages s) of
        Inl e \<Rightarrow> (Thrown e, s)
      | Inr (text_map, idsToRemove) \<Rightarrow>
          (Returned text_map,
           s\<lparr>registeredAppImages := fold erase idsToRemove (registeredAppImages s)\<rparr>))"

definition readdir :: "fs_state \<Rightarrow> string \<Rightarrow> int \<times> string list" where
  \<comment> \<open>the return value and the names handed to \<^verbatim>\<open>filler\<close>, in order\<close>
  "readdir s path =
     (if path \<noteq> ''/'' then (- ENOENT, [])
      else (0, [''.'', ''..'', ''map'', ''register'']
               @ map (\<lambda>kv. generateFilenameForId (fst kv)) (registeredAppImages s)))"

subsection \<open>The read handlers\<close>

text \<open>
  A handler returns its \<^verbatim>\<open>int\<close> and the bytes the caller of \<^verbatim>\<open>read\<close> receives: the
  first \<open>n\<close> bytes of the buffer when it returns \<open>n \<ge> 0\<close>, none when it returns an
  error code.
\<close>

definition handleReadMap :: "os \<Rightarrow> fs_state \<Rightarrow> nat \<Rightarrow> int \<Rightarrow> (int \<times> string) outcome \<times> fs_state" where
  \<comment> \<open>a negative offset makes \<^verbatim>\<open>memcpy\<close> read before \<^verbatim>\<open>map.data()\<close>\<close>
  "handleReadMap os s bufsize offset =
     (case generateTextMap os s of
        (Thrown e, s') \<Rightarrow> (Thrown e, s')
      | (Undefined, s') \<Rightarrow> (Undefined, s')
      | (Returned text_map, s') \<Rightarrow>
          let bytesToCopy = (min (int bufsize) (int (length text_map)) - offset) mod SIZE_MOD
          in if offset > int (length text_map) then (Returned (- EIO, []), s')
             else if bytesToCopy > INT32_MAX then (Returned (- EIO, []), s')
             else if offset < 0 then (Undefined, s')
             else (Returned (bytesToCopy, take (nat bytesToCopy) (drop (nat offset) text_map)), s'))"

definition REGISTER_MSG :: string where
  "REGISTER_MSG =
     ''Write paths to AppImages into this virtual file, one per line, to register them'' @ [CHR 0x0A]"

definition handleWriteRegister :: "string \<Rightarrow> nat \<Rightarrow> int \<Rightarrow> (int \<times> string) outcome" where
  \<comment> \<open>\<open>buf\<close> is the buffer as the caller passed it, \<open>bufsize\<close> bytes long;
      \<^verbatim>\<open>memcpy(buf + offset, REGISTER_MSG, bytesToWrite)\<close> writes at \<open>offset\<close> of
      the buffer\<close>
  "handleWriteRegister buf bufsize offset =
     (let bytesToWrite = (min (int bufsize) (int (length REGISTER_MSG)) - offset) mod SIZE_MOD
      in if bytesToWrite > INT32_MAX then Returned (- EIO, [])
         else if offset < 0 then Undefined
         else
           let buf' = take (nat offset) buf @ take (nat bytesToWrite) REGISTER_MSG
                        @ drop (nat offset + nat bytesToWrite) buf
           in Returned (bytesToWrite, take (nat bytesToWrite) buf'))"

text \<open>
  \<^verbatim>\<open>handleReadRegisteredAppImage\<close> writes through \<^verbatim>\<open>buf + beg\<close> with a \<open>beg\<close> that
  may be negative, so memory is a function from addresses to bytes and \<open>buf\<close> is the
  address of the caller's buffer. \<open>file\<close> holds the bytes behind the descriptor
  \<^verbatim>\<open>fi->fh\<close>, \<open>None\<close> when the descriptor is not open.
\<close>

type_synonym memory = "int \<Rightarrow> char"

definition store_bytes :: "memory \<Rightarrow> int \<Rightarrow> string \<Rightarrow> memory" where
  "store_bytes mem a bs =
     (\<lambda>x. if a \<le> x \<and> x < a + int (length bs) then bs ! nat (x - a) else mem x)"

definition memset :: "memory \<Rightarrow> int \<Rightarrow> char \<Rightarrow> int \<Rightarrow> memory" where
  "memset mem a c n = (\<lambda>x. if a \<le> x \<and> x < a + n then c else mem x)"

definition load_bytes :: "memory \<Rightarrow> int \<Rightarrow> nat \<Rightarrow> string" where
  "load_bytes mem a n = map (\<lambda>i. mem (a + int i)) [0..<n]"

definition pread :: "string option \<Rightarrow> memory \<Rightarrow> int \<Rightarrow> nat \<Rightarrow> int \<Rightarrow> int \<times> memory" where
  \<comment> \<open>\<^verbatim>\<open>pread(fd, buf, count, offset)\<close> on a regular file: \<open>- 1\<close> for a bad descriptor or
      a negative offset, else the bytes from \<open>offset\<close> up to the end of the file or
      \<open>count\<close> of them\<close>
  "pread file mem buf bufsize offset =
     (case file of
        None \<Rightarrow> (- 1, mem)
      | Some content \<Rightarrow>
          if offset < 0 then (- 1, mem)
          else
            let bs = take bufsize (drop (nat offset) content)
            in (int (length bs), store_bytes mem buf bs))"

definition magicBytesBegin :: int where
  "magicBytesBegin = 8"

definition magicBytesEnd :: int where
  "magicBytesEnd = 10"

definition handleReadRegisteredAppImage ::
    "string option \<Rightarrow> memory \<Rightarrow> int \<Rightarrow> nat \<Rightarrow> int \<Rightarrow> int \<times> memory" where
  "handleReadRegisteredAppImage file mem buf bufsize offset =
     (let (bytesRead, mem1) = pread file mem buf bufsize offset
      in if bytesRead < 0 then (bytesRead, mem1)
         else if bytesRead > INT32_MAX then (- EIO, mem1)
         else if offset \<le> magicBytesEnd then
           let beg = magicBytesBegin - offset;
               count = min (min ((magicBytesEnd - offset) mod SIZE_MOD) 2) (int bufsize) + 1
           in (bytesRead, memset mem1 (buf + beg) NUL count)
         else (bytesRead, mem1))"

definition bytes_received :: "int \<times> memory \<Rightarrow> int \<Rightarrow> string" where
  \<comment> \<open>what the reader gets: the first \<open>ret\<close> bytes at \<open>buf\<close>\<close>
  "bytes_received res buf = load_bytes (snd res) buf (nat (fst res))"

subsection \<open>\<^verbatim>\<open>release\<close>\<close>

fun strip_back :: "string \<Rightarrow> string option" where
  \<comment> \<open>on the reversed string: \<^verbatim>\<open>while (s.back() == '\n' || s.back() == '\r') s.pop_back()\<close>;
      \<^verbatim>\<open>back()\<close> of an empty string has no defined value\<close>
  "strip_back [] = None"
| "strip_back (c # cs) =
     (if c = CHR 0x0A \<or> c = CHR 0x0D then strip_back cs else Some (c # cs))"

definition strip_line_end :: "string \<Rightarrow> string option" where
  "strip_line_end s = map_option rev (strip_back (rev s))"

definition release ::
    "os \<Rightarrow> fs_state \<Rightarrow> (nat \<rightharpoonup> string) \<Rightarrow> string \<Rightarrow> nat
       \<Rightarrow> int outcome \<times> fs_state \<times> (nat \<rightharpoonup> string) \<times> nat" where
  \<comment> \<open>\<open>heap\<close> holds the \<^verbatim>\<open>std::vector<char>\<close> objects that \<^verbatim>\<open>open\<close> allocated, by
      address; \<open>fh\<close> is \<^verbatim>\<open>fi->fh\<close>. The result: the return value, the registry, the
      heap and \<^verbatim>\<open>fi->fh\<close> afterwards.\<close>
  "release os s heap path fh =
     (if path = ''/register'' \<and> fh \<noteq> 0 then
        case heap fh of
          None \<Rightarrow> (Undefined, s, heap, fh)
        | Some buf \<Rightarrow>
            (case strip_line_end buf of
               None \<Rightarrow> (Undefined, s, heap, fh)
             | Some requestedPath \<Rightarrow>
                 (case registerAppImage os s requestedPath of
                    (Undefined, s') \<Rightarrow> (Undefined, s', heap, fh)
                  | (Thrown e, s') \<Rightarrow>
                      if is_AppImageLauncherFSError e then (Returned 0, s', heap(fh := None), 0)
                      else (Thrown e, s', heap, fh)
                  | (Returned i, s') \<Rightarrow> (Returned 0, s', heap(fh := None), 0)))
      else (Returned 0, s, heap, fh))"

subsection \<open>Runs of the registry\<close>

datatype registry_op = Register string | Lookup string | Render_listing

text \<open>
  A run is a list of calls, each with the environment it meets. A call that throws
  leaves the state as the throw left it, and the run goes on.
\<close>

fun step :: "fs_state \<Rightarrow> os \<times> registry_op \<Rightarrow> int list \<times> fs_state" where
  \<comment> \<open>the id that the call assigns, if it is a successful \<^verbatim>\<open>registerAppImage\<close>, and
      the state after the call\<close>
  "step s (os, Register p) =
     (case registerAppImage os s p of
        (Returned i, s') \<Rightarrow> ([i], s')
      | (_, s') \<Rightarrow> ([], s'))"
| "step s (os, Lookup p) = ([], snd (mapPathToRegisteredAppImage os s p))"
| "step s (os, Render_listing) = ([], snd (generateTextMap os s))"

fun assigned_ids :: "fs_state \<Rightarrow> (os \<times> registry_op) list \<Rightarrow> int list" where
  \<comment> \<open>the ids that the successful \<^verbatim>\<open>registerAppImage\<close> calls of a run return, in order\<close>
  "assigned_ids s [] = []"
| "assigned_ids s (x # ops) = fst (step s x) @ assigned_ids (snd (step s x)) ops"

fun final_state :: "fs_state \<Rightarrow> (os \<times> registry_op) list \<Rightarrow> fs_state" where
  "final_state s [] = s"
| "final_state s (x # ops) = final_state (snd (step s x)) ops"

fun registrations :: "(os \<times> registry_op) list \<Rightarrow> nat" where
  \<comment> \<open>the number of \<^verbatim>\<open>registerAppImage\<close> calls of a run\<close>
  "registrations [] = 0"
| "registrations ((os, Register p) # ops) = Suc (registrations ops)"
| "registrations (x # ops) = registrations ops"

subsection \<open>Canonical numerals and example inputs\<close>

definition numeral_of :: "int \<Rightarrow> string" where
  \<comment> \<open>the decimal numeral of a non-negative id, padded with zeros to four characters\<close>
  "numeral_of k =
     replicate (4 - length (digits_of_nat (nat k))) (CHR ''0'') @ digits_of_nat (nat k)"

fun split_sep :: "string \<Rightarrow> string list" where
  \<comment> \<open>the pieces of a string between its separators\<close>
  "split_sep [] = [[]]"
| "split_sep (c # cs) =
     (if c = CHR ''/'' then [] # split_sep cs
      else case split_sep cs of [] \<Rightarrow> [[c]] | n # ns \<Rightarrow> (c # n) # ns)"

definition same_elements :: "string \<Rightarrow> string \<Rightarrow> bool" where
  \<comment> \<open>an instance of \<open>path_equal\<close> for the examples: the paths are both absolute or both
      relative and have the same names in the same order, so that repeated separators
      count as one. For paths with no trailing separator that do not begin with exactly
      two separators this is the element-wise comparison of \<^verbatim>\<open>bf::path\<close>.\<close>
  "same_elements p q =
     (take 1 p = take 1 q
      \<and> filter (\<lambda>n. n \<noteq> []) (split_sep p) = filter (\<lambda>n. n \<noteq> []) (split_sep q))"

definition name_too_long :: "string \<Rightarrow> bool" where
  \<comment> \<open>\<^verbatim>\<open>stat\<close> fails with \<^verbatim>\<open>ENAMETOOLONG\<close>: the path has \<^verbatim>\<open>PATH_MAX\<close> = 4096
      characters or more, or a name of more than \<^verbatim>\<open>NAME_MAX\<close> = 255\<close>
  "name_too_long p = (4096 \<le> length p \<or> list_ex (\<lambda>n. 255 < length n) (split_sep p))"

definition example_os :: os where
  "example_os =
     \<lparr>status = (\<lambda>p. if name_too_long p then status_error
                      else if p = ''/a'' \<or> p = ''/b'' \<or> p = ''x.AppImage''
                              \<or> p = ''/home/u/x.AppImage''
                      then regular_file else file_not_found),
      open_rdonly = (\<lambda>p. 3),
      current_path = ''/home/u'',
      path_equal = same_elements\<rparr>"

definition vanished_os :: os where
  \<comment> \<open>the same machine after every file has been deleted\<close>
  "vanished_os =
     \<lparr>status = (\<lambda>p. if name_too_long p then status_error else file_not_found),
      open_rdonly = (\<lambda>p. - 1),
      current_path = ''/home/u'',
      path_equal = same_elements\<rparr>"

definition unreadable_os :: os where
  \<comment> \<open>the same machine once \<^verbatim>\<open>open\<close> fails for every file\<close>
  "unreadable_os = example_os\<lparr>open_rdonly := (\<lambda>p. - 1)\<rparr>"

definition too_long_name :: string where
  \<comment> \<open>a path that no file can have: its name has 300 characters\<close>
  "too_long_name = CHR ''/'' # replicate 300 (CHR ''x'')"

definition overflow_state :: fs_state where
  "overflow_state = \<lparr>registeredAppImages = [], counter = INT_MAX\<rparr>"

definition overflow_run :: "(os \<times> registry_op) list" where
  "overflow_run = [(example_os, Register ''/a''), (example_os, Register ''/b'')]"

definition example_state :: fs_state where
  \<comment> \<open>the registry after \<^verbatim>\<open>registerAppImage("/a")\<close> on \<open>example_os\<close>\<close>
  "example_state =
     \<lparr>registeredAppImages = [(0, \<lparr>r_id = 0, r_path = ''/a'', r_fd = 3\<rparr>)], counter = 1\<rparr>"

definition numeral_part :: "string \<Rightarrow> string" where
  \<comment> \<open>of a virtual path without its leading separator: what \<^verbatim>\<open>std::stoi\<close> is given,
      the characters before the first dot\<close>
  "numeral_part p = takeWhile (\<lambda>c. c \<noteq> CHR ''.'') (c_str p)"

definition ids_below_counter :: "fs_state \<Rightarrow> bool" where
  "ids_below_counter s = list_all (\<lambda>kv. fst kv < counter s) (registeredAppImages s)"

definition example_run :: "(os \<times> registry_op) list" where
  "example_run =
     [(example_os, Register ''/a''),
      (vanished_os, Lookup ''/0000.AppImage''),
      (example_os, Register ''/a'')]"

definition example_appimage :: string where
  "example_appimage =
     [CHR 0x7F, CHR ''E'', CHR ''L'', CHR ''F'', CHR 0x02, CHR 0x01, CHR 0x01, CHR 0x00,
      CHR ''A'', CHR ''I'', CHR 0x02, CHR 0x00, CHR 0x00, CHR 0x00, CHR 0x00, CHR 0x00]"

section \<open>Properties\<close>

subsection \<open>Printing and parsing decimal numerals\<close>

lemma of_char_digit_char_nat: "d < 10 \<Longrightarrow> (of_char (digit_char d) :: nat) = 48 + d"
  by (simp add: digit_char_def)

lemma of_char_digit_char: "d < 10 \<Longrightarrow> (of_char (digit_char d) :: int) = 48 + int d"
proof -
  assume d: "d < 10"
  have "(of_char (digit_char d) :: int) = int (of_char (digit_char d))"
    by (rule of_nat_of_char [symmetric])
  with d show ?thesis by (simp add: of_char_digit_char_nat)
qed

lemma isdigit_digit_char: "d < 10 \<Longrightarrow> isdigit (digit_char d)"
  by (simp add: isdigit_def of_char_digit_char_nat)

lemma isdigit_zero: "isdigit (CHR ''0'')"
  by (simp add: isdigit_def)

lemma isdigit_not_special:
  assumes "isdigit c"
  shows "\<not> isspace c" "c \<noteq> CHR ''-''" "c \<noteq> CHR ''+''" "c \<noteq> CHR ''.''" "c \<noteq> NUL"
  using assms by (auto simp: isdigit_def isspace_def NUL_def)

lemma digits_of_nat_isdigit: "c \<in> set (digits_of_nat n) \<Longrightarrow> isdigit c"
proof (induction n rule: digits_of_nat.induct)
  case (1 n)
  then show ?case
    by (subst (asm) (2) digits_of_nat.simps) (auto simp: isdigit_digit_char split: if_splits)
qed

lemma digits_of_nat_nonempty: "digits_of_nat n \<noteq> []"
  by (subst digits_of_nat.simps) simp

lemma digits_value_snoc: "digits_value (ds @ [c]) = 10 * digits_value ds + (of_char c - 48)"
  by (simp add: digits_value_def)

lemma digits_value_digits_of_nat: "digits_value (digits_of_nat n) = int n"
proof (induction n rule: digits_of_nat.induct)
  case (1 n)
  show ?case
  proof (cases "n < 10")
    case True
    then show ?thesis
      by (subst digits_of_nat.simps) (simp add: digits_value_def of_char_digit_char)
  next
    case False
    with 1 have "digits_value (digits_of_nat (n div 10)) = int (n div 10)" by simp
    with False show ?thesis
      by (subst digits_of_nat.simps) (simp add: digits_value_snoc of_char_digit_char zdiv_int zmod_int)
  qed
qed

lemma digits_value_zero_pad: "digits_value (replicate k (CHR ''0'') @ ds) = digits_value ds"
proof -
  have "foldl (\<lambda>a c. 10 * a + (of_char c - 48)) (0::int) (replicate k (CHR ''0'')) = 0"
    by (induction k) simp_all
  then show ?thesis by (simp add: digits_value_def)
qed

lemma stoi_digits:
  assumes "zs \<noteq> []" and "\<And>c. c \<in> set zs \<Longrightarrow> isdigit c"
    and "digits_value zs \<le> INT_MAX" and "0 \<le> digits_value zs"
  shows "stoi zs = Inr (digits_value zs)"
proof -
  obtain c r where zs: "zs = c # r" using assms(1) by (cases zs) auto
  have c: "isdigit c" using assms(2) zs by simp
  have tw: "takeWhile isdigit zs = zs" using assms(2) by (simp add: takeWhile_eq_all_conv)
  have dw: "dropWhile isspace zs = zs" using isdigit_not_special(1)[OF c] zs by simp
  show ?thesis
    unfolding stoi_def Let_def dw
    using isdigit_not_special[OF c] tw assms(1,3,4) zs
    by (simp add: INT_MIN_def)
qed

lemma show_int_nonneg: "0 \<le> k \<Longrightarrow> show_int k = digits_of_nat (nat k)"
  by (simp add: show_int_def)

lemma generateFilenameForId_nonneg:
  "0 \<le> k \<Longrightarrow> generateFilenameForId k = numeral_of k @ ''.AppImage''"
  by (simp add: generateFilenameForId_def show_int_nonneg numeral_of_def)

lemma numeral_of_isdigit: "c \<in> set (numeral_of k) \<Longrightarrow> isdigit c"
  by (auto simp: numeral_of_def isdigit_zero digits_of_nat_isdigit)

lemma numeral_of_nonempty: "numeral_of k \<noteq> []"
  by (simp add: numeral_of_def digits_of_nat_nonempty)

lemma digits_value_numeral_of: "0 \<le> k \<Longrightarrow> digits_value (numeral_of k) = k"
  by (simp add: numeral_of_def digits_value_zero_pad digits_value_digits_of_nat)

lemma stoi_numeral_of: "0 \<le> k \<Longrightarrow> k \<le> INT_MAX \<Longrightarrow> stoi (numeral_of k) = Inr k"
  using stoi_digits [of "numeral_of k"]
  by (simp add: numeral_of_nonempty numeral_of_isdigit digits_value_numeral_of)

lemma generateFilenameForId_0: "generateFilenameForId 0 = ''0000.AppImage''"
  by code_simp

lemma generateFilenameForId_7: "generateFilenameForId 7 = ''0007.AppImage''"
  by code_simp

subsection \<open>The example environments\<close>

lemma split_sep_replicate: "c \<noteq> CHR ''/'' \<Longrightarrow> split_sep (replicate n c) = [replicate n c]"
  by (induction n) simp_all

lemma name_too_long_examples:
  "\<not> name_too_long ''/a''" "\<not> name_too_long ''/b''" "\<not> name_too_long ''x.AppImage''"
  "\<not> name_too_long ''/home/u/x.AppImage''" "name_too_long too_long_name"
  by (simp_all add: name_too_long_def too_long_name_def split_sep_replicate)

lemma bf_exists_examples:
  "bf_exists example_os ''/a'' = Inr True" "bf_exists example_os ''/b'' = Inr True"
  "bf_exists example_os ''x.AppImage'' = Inr True"
  "bf_exists example_os ''/home/u/x.AppImage'' = Inr True"
  "bf_exists vanished_os ''/a'' = Inr False"
  "bf_exists unreadable_os ''/a'' = Inr True"
  "bf_exists example_os too_long_name = Inl Boost_filesystem_error"
  by (simp_all add: bf_exists_def bf_status_def example_os_def vanished_os_def unreadable_os_def
      name_too_long_examples, simp add: too_long_name_def)

lemma checkExistsOnDisk_examples:
  "checkExistsOnDisk example_os \<lparr>r_id = 0, r_path = ''/a'', r_fd = 3\<rparr> = Inr True"
  "checkExistsOnDisk vanished_os \<lparr>r_id = 0, r_path = ''/a'', r_fd = 3\<rparr> = Inr False"
  by (simp_all add: checkExistsOnDisk_def bf_is_regular_file_def bf_status_def example_os_def
      vanished_os_def name_too_long_examples)

lemma example_os_fields:
  "open_rdonly example_os p = 3" "current_path example_os = ''/home/u''"
  "path_equal example_os = same_elements" "path_equal vanished_os = same_elements"
  "open_rdonly unreadable_os p = - 1" "path_equal unreadable_os = same_elements"
  by (simp_all add: example_os_def vanished_os_def unreadable_os_def)

lemma same_elements_examples:
  "\<not> same_elements ''/b'' ''/a''"
  "\<not> same_elements ''x.AppImage'' ''/home/u/x.AppImage''"
  "same_elements ''/home/u/x.AppImage'' ''/home/u//x.AppImage''"
  by (simp_all add: same_elements_def)

subsection \<open>Resolving a canonical name\<close>

lemma c_str_canonical:
  "c_str (CHR ''/'' # numeral_of k @ ''.AppImage'') = CHR ''/'' # numeral_of k @ ''.AppImage''"
  unfolding c_str_def
  by (auto simp: takeWhile_eq_all_conv NUL_def isdigit_def dest!: numeral_of_isdigit)

lemma firstPart_canonical:
  "takeWhile (\<lambda>c. c \<noteq> CHR ''.'') (CHR ''/'' # numeral_of k @ ''.AppImage'') = CHR ''/'' # numeral_of k"
proof -
  have "takeWhile (\<lambda>c. c \<noteq> CHR ''.'') (numeral_of k @ ''.AppImage'') = numeral_of k"
    by (subst takeWhile_append2) (auto dest: numeral_of_isdigit isdigit_not_special(4))
  then show ?thesis by simp
qed

lemma mapPath_canonical:
  assumes "0 \<le> k" "k \<le> INT_MAX"
  shows "mapPathToRegisteredAppImage os s (CHR ''/'' # generateFilenameForId k) =
     (let (r, m) = index k (registeredAppImages s)
      in case checkExistsOnDisk os r of
           Inl e \<Rightarrow> (Thrown e, s\<lparr>registeredAppImages := m\<rparr>)
         | Inr found \<Rightarrow>
             if \<not> found
             then (Thrown CouldNotFindRegisteredAppImageError, s\<lparr>registeredAppImages := erase k m\<rparr>)
             else (Returned r, s\<lparr>registeredAppImages := m\<rparr>))"
  unfolding mapPathToRegisteredAppImage_def generateFilenameForId_nonneg [OF assms(1)]
    c_str_canonical firstPart_canonical
  by (simp add: stoi_numeral_of assms generateFilenameForId_nonneg)

lemma checkExistsOnDisk_default: "checkExistsOnDisk os default_RegisteredAppImage = Inr False"
  by (simp add: checkExistsOnDisk_def default_RegisteredAppImage_def bf_is_regular_file_def
      bf_status_def)

lemma erase_absent: "k \<notin> fst ` set m \<Longrightarrow> erase k m = m"
  by (induction m) (auto simp: erase_def)

lemma map_of_None_iff: "map_of m k = None \<longleftrightarrow> k \<notin> fst ` set m"
  by (simp add: map_of_eq_None_iff)

lemma mapPath_unregistered:
  assumes "0 \<le> k" "k \<le> INT_MAX" "k \<notin> fst ` set (registeredAppImages s)"
  shows "mapPathToRegisteredAppImage os s (CHR ''/'' # generateFilenameForId k) =
           (Thrown CouldNotFindRegisteredAppImageError, s)"
proof -
  have "map_of (registeredAppImages s) k = None" using assms(3) by (simp add: map_of_None_iff)
  then show ?thesis
    using assms
    by (simp add: mapPath_canonical index_def checkExistsOnDisk_default erase_def
        erase_absent [unfolded erase_def])
qed

text \<open>
  Claim C10. For every canonical virtual name (separator, the id in decimal padded with
  zeros to four characters, \<^verbatim>\<open>.AppImage\<close>) of an id \<open>k\<close> that has no entry in the
  registry, \<^verbatim>\<open>mapPathToRegisteredAppImage\<close> throws
  \<^verbatim>\<open>CouldNotFindRegisteredAppImageError\<close>, and the entries of the registry and the
  counter are afterwards what they were before: the entry that \<^verbatim>\<open>operator[]\<close>
  default-inserts for \<open>k\<close> is erased again before the throw.
\<close>

theorem C10_unregistered_id_not_found_registry_kept:
  assumes "0 \<le> k" and "k \<le> INT_MAX" and "k \<notin> fst ` set (registeredAppImages s)"
  shows "fst (mapPathToRegisteredAppImage os s (CHR ''/'' # generateFilenameForId k))
           = Thrown CouldNotFindRegisteredAppImageError
         \<and> set (registeredAppImages (snd (mapPathToRegisteredAppImage os s (CHR ''/'' # generateFilenameForId k))))
           = set (registeredAppImages s)
         \<and> counter (snd (mapPathToRegisteredAppImage os s (CHR ''/'' # generateFilenameForId k)))
           = counter s"
  using mapPath_unregistered [OF assms] by simp

theorem C10_witness:
  "(0::int) \<le> 7 \<and> 7 \<le> INT_MAX \<and> 7 \<notin> fst ` set (registeredAppImages example_state)
   \<and> fst (mapPathToRegisteredAppImage example_os example_state ''/0007.AppImage'')
       = Thrown CouldNotFindRegisteredAppImageError
   \<and> set (registeredAppImages (snd (mapPathToRegisteredAppImage example_os example_state ''/0007.AppImage'')))
       = set (registeredAppImages example_state)
   \<and> counter (snd (mapPathToRegisteredAppImage example_os example_state ''/0007.AppImage''))
       = counter example_state"
proof -
  have h: "(0::int) \<le> 7" "7 \<le> INT_MAX" "7 \<notin> fst ` set (registeredAppImages example_state)"
    by (simp_all add: INT_MAX_def example_state_def)
  show ?thesis
    using h C10_unregistered_id_not_found_registry_kept [OF h, of example_os]
    by (simp add: generateFilenameForId_7)
qed

subsection \<open>Registering a path\<close>

lemma registerAppImage_not_found:
  assumes "bf_exists os p = Inr False"
  shows "registerAppImage os s p = (Thrown FileNotFoundError, s)"
  using assms by (simp add: registerAppImage_def)

lemma registerAppImage_vanished_file:
  "registerAppImage vanished_os example_state ''/a'' = (Thrown FileNotFoundError, example_state)"
  by (simp add: registerAppImage_not_found bf_exists_examples)

text \<open>
  Claim C7 fails on the code. No file has the path \<open>too_long_name\<close>, whose name has 300
  characters: \<^verbatim>\<open>stat\<close> fails with \<^verbatim>\<open>ENAMETOOLONG\<close>, \<^verbatim>\<open>bf::exists\<close> throws
  \<^verbatim>\<open>bf::filesystem_error\<close>, and \<^verbatim>\<open>registerAppImage\<close> is left with that exception
  instead of \<^verbatim>\<open>FileNotFoundError\<close>. The registry and the counter are unchanged. Where
  \<^verbatim>\<open>bf::exists\<close> answers that the path does not exist, \<^verbatim>\<open>FileNotFoundError\<close> is
  thrown as claimed (\<open>registerAppImage_not_found\<close>).
\<close>

theorem C7_name_too_long_is_filesystem_error:
  "length too_long_name = 301
   \<and> bf_exists example_os too_long_name = Inl Boost_filesystem_error
   \<and> registerAppImage example_os example_state too_long_name
       = (Thrown Boost_filesystem_error, example_state)
   \<and> \<not> is_AppImageLauncherFSError Boost_filesystem_error"
proof -
  have "length too_long_name = 301" by (simp add: too_long_name_def)
  then show ?thesis by (simp add: registerAppImage_def bf_exists_examples)
qed

subsection \<open>Resolving any path\<close>

lemma c_str_slash: "c_str (CHR ''/'' # p) = CHR ''/'' # c_str p"
  by (simp add: c_str_def NUL_def)

lemma mapPath_slash:
  "mapPathToRegisteredAppImage os s (CHR ''/'' # p) =
     (case stoi (numeral_part p) of
        Inl e \<Rightarrow>
          (if e = Std_invalid_argument then (Thrown CouldNotFindRegisteredAppImageError, s)
           else (Thrown e, s))
      | Inr i \<Rightarrow>
          if p \<noteq> generateFilenameForId i
          then (Thrown CouldNotFindRegisteredAppImageError, s)
          else
            let (r, m) = index i (registeredAppImages s)
            in case checkExistsOnDisk os r of
                 Inl e \<Rightarrow> (Thrown e, s\<lparr>registeredAppImages := m\<rparr>)
               | Inr found \<Rightarrow>
                   if \<not> found
                   then (Thrown CouldNotFindRegisteredAppImageError,
                         s\<lparr>registeredAppImages := erase i m\<rparr>)
                   else (Returned r, s\<lparr>registeredAppImages := m\<rparr>))"
  by (simp add: mapPathToRegisteredAppImage_def c_str_slash numeral_part_def split: sum.splits)

lemma mapPath_registered:
  assumes "0 \<le> k" "k \<le> INT_MAX" "map_of (registeredAppImages s) k = Some r"
    "checkExistsOnDisk os r = Inr True"
  shows "mapPathToRegisteredAppImage os s (CHR ''/'' # generateFilenameForId k) = (Returned r, s)"
  using assms by (simp add: mapPath_canonical index_def)

lemma stoi_abc: "stoi (numeral_part ''abc.AppImage'') = Inl Std_invalid_argument"
  by (simp add: numeral_part_def c_str_def NUL_def stoi_def isspace_def isdigit_def)

lemma stoi_007: "stoi (numeral_part ''007.AppImage'') = Inr 7"
  by (simp add: numeral_part_def c_str_def NUL_def stoi_def isspace_def isdigit_def digits_value_def INT_MIN_def INT_MAX_def)

text \<open>
  Claim C2, as amended. (1) For every id \<open>k\<close> with \<open>0 \<le> k \<le> INT_MAX\<close> that is registered
  with entry \<open>r\<close> and whose file is still a regular file on disk, the canonical name
  (separator, \<open>k\<close> padded with zeros to four characters, \<^verbatim>\<open>.AppImage\<close>) resolves to
  exactly \<open>r\<close> and leaves the registry as it was. (2) For every path that begins with the
  separator and whose numeral part holds no number that \<^verbatim>\<open>std::stoi\<close> can read
  (\<^verbatim>\<open>std::invalid_argument\<close>), resolution throws
  \<^verbatim>\<open>CouldNotFindRegisteredAppImageError\<close>, not \<^verbatim>\<open>InvalidPathError\<close>. (3) So it does
  for every path that begins with the separator and whose numeral part is read as the
  \<^verbatim>\<open>int\<close> \<open>i\<close> but that is not the canonical name of \<open>i\<close>, whatever the
  difference (padding, case, suffix). The registry is unchanged in (2) and (3).
\<close>

theorem C2_resolve_live_canonical_reject_others:
  "(0 \<le> k \<and> k \<le> INT_MAX \<and> map_of (registeredAppImages s) k = Some r
        \<and> checkExistsOnDisk os r = Inr True
      \<longrightarrow> mapPathToRegisteredAppImage os s (CHR ''/'' # generateFilenameForId k) = (Returned r, s))
   \<and> (stoi (numeral_part p) = Inl Std_invalid_argument
      \<longrightarrow> mapPathToRegisteredAppImage os s (CHR ''/'' # p)
            = (Thrown CouldNotFindRegisteredAppImageError, s))
   \<and> (stoi (numeral_part q) = Inr i \<and> q \<noteq> generateFilenameForId i
      \<longrightarrow> mapPathToRegisteredAppImage os s (CHR ''/'' # q)
            = (Thrown CouldNotFindRegisteredAppImageError, s))"
proof (intro conjI impI)
  assume "0 \<le> k \<and> k \<le> INT_MAX \<and> map_of (registeredAppImages s) k = Some r
        \<and> checkExistsOnDisk os r = Inr True"
  then show "mapPathToRegisteredAppImage os s (CHR ''/'' # generateFilenameForId k) = (Returned r, s)"
    by (simp add: mapPath_registered)
next
  assume "stoi (numeral_part p) = Inl Std_invalid_argument"
  then show "mapPathToRegisteredAppImage os s (CHR ''/'' # p)
      = (Thrown CouldNotFindRegisteredAppImageError, s)"
    by (simp add: mapPath_slash)
next
  assume "stoi (numeral_part q) = Inr i \<and> q \<noteq> generateFilenameForId i"
  then show "mapPathToRegisteredAppImage os s (CHR ''/'' # q)
      = (Thrown CouldNotFindRegisteredAppImageError, s)"
    by (simp add: mapPath_slash)
qed

theorem C2_witness:
  "mapPathToRegisteredAppImage example_os example_state ''/0000.AppImage''
     = (Returned \<lparr>r_id = 0, r_path = ''/a'', r_fd = 3\<rparr>, example_state)
   \<and> mapPathToRegisteredAppImage example_os example_state ''/abc.AppImage''
     = (Thrown CouldNotFindRegisteredAppImageError, example_state)
   \<and> mapPathToRegisteredAppImage example_os example_state ''/007.AppImage''
     = (Thrown CouldNotFindRegisteredAppImageError, example_state)"
proof -
  have h1: "(0::int) \<le> 0 \<and> 0 \<le> INT_MAX
      \<and> map_of (registeredAppImages example_state) 0 = Some \<lparr>r_id = 0, r_path = ''/a'', r_fd = 3\<rparr>
      \<and> checkExistsOnDisk example_os \<lparr>r_id = 0, r_path = ''/a'', r_fd = 3\<rparr> = Inr True"
    by (simp add: INT_MAX_def example_state_def checkExistsOnDisk_examples)
  have h3: "stoi (numeral_part ''007.AppImage'') = Inr 7 \<and> ''007.AppImage'' \<noteq> generateFilenameForId 7"
    by (simp add: stoi_007 generateFilenameForId_7)
  show ?thesis
    using C2_resolve_live_canonical_reject_others [of 0 example_state "\<lparr>r_id = 0, r_path = ''/a'', r_fd = 3\<rparr>" example_os
        "''abc.AppImage''" "''007.AppImage''" 7] h1 h3 stoi_abc
    by (simp add: generateFilenameForId_0)
qed

text \<open>
  Claim C2 as stated fails for a registered id whose file has vanished: the canonical name
  of the registered id \<open>0\<close> does not resolve to its entry; the lookup evicts the entry and
  throws.
\<close>

theorem C2_counterexample:
  "map_of (registeredAppImages example_state) 0 = Some \<lparr>r_id = 0, r_path = ''/a'', r_fd = 3\<rparr>
   \<and> mapPathToRegisteredAppImage vanished_os example_state ''/0000.AppImage''
       = (Thrown CouldNotFindRegisteredAppImageError, \<lparr>registeredAppImages = [], counter = 1\<rparr>)"
proof -
  have "mapPathToRegisteredAppImage vanished_os example_state (CHR ''/'' # generateFilenameForId 0)
       = (Thrown CouldNotFindRegisteredAppImageError, \<lparr>registeredAppImages = [], counter = 1\<rparr>)"
    by (subst mapPath_canonical)
      (simp_all add: INT_MAX_def index_def example_state_def checkExistsOnDisk_examples
        erase_def)
  then show ?thesis by (simp add: generateFilenameForId_0 example_state_def)
qed

text \<open>
  A numeral too large for \<^verbatim>\<open>int\<close> is a third outcome: \<^verbatim>\<open>std::stoi\<close> throws
  \<^verbatim>\<open>std::out_of_range\<close>, which \<^verbatim>\<open>mapPathToRegisteredAppImage\<close> does not catch.
\<close>

lemma mapPath_numeral_out_of_range:
  "mapPathToRegisteredAppImage example_os example_state ''/99999999999.AppImage''
     = (Thrown Std_out_of_range, example_state)"
proof -
  have "stoi (numeral_part ''99999999999.AppImage'') = Inl Std_out_of_range"
    by (simp add: numeral_part_def c_str_def NUL_def stoi_def isspace_def isdigit_def
        digits_value_def INT_MIN_def INT_MAX_def)
  then show ?thesis
    using mapPath_slash [of example_os example_state "''99999999999.AppImage''"] by simp
qed


subsection \<open>Registering a path that is registered already\<close>

text \<open>
  Claim C5, as amended. For every registry state and every path \<open>p\<close> that exists on disk
  and that \<^verbatim>\<open>bf::path::operator==\<close> finds equal to the stored path of an entry with id
  \<open>k\<close>, \<^verbatim>\<open>registerAppImage(p)\<close> throws \<^verbatim>\<open>AppImageAlreadyRegisteredError\<close> carrying
  the id of an entry whose stored path is equal to \<open>p\<close> (it is \<open>k\<close> when no other entry
  has such a path), and leaves the registry and the counter as they were.
\<close>

theorem C5_register_again_already_registered:
  assumes "bf_exists os p = Inr True" and "(k, r) \<in> set (registeredAppImages s)"
    and "path_equal os p (r_path r)"
  shows "\<exists>k' r'. registerAppImage os s p = (Thrown (AppImageAlreadyRegisteredError k'), s)
           \<and> (k', r') \<in> set (registeredAppImages s) \<and> path_equal os p (r_path r')
           \<and> ((\<forall>kv \<in> set (registeredAppImages s). path_equal os p (r_path (snd kv)) \<longrightarrow> fst kv = k)
                \<longrightarrow> k' = k)"
proof -
  have "\<exists>x. x \<in> set (registeredAppImages s) \<and> path_equal os p (r_path (snd x))"
    using assms(2,3) by (intro exI [of _ "(k, r)"]) simp
  then have "find (\<lambda>kv. path_equal os p (r_path (snd kv))) (registeredAppImages s) \<noteq> None"
    by (simp add: find_None_iff)
  then obtain kv where f: "find (\<lambda>kv. path_equal os p (r_path (snd kv))) (registeredAppImages s) = Some kv"
    by blast
  then have kv: "kv \<in> set (registeredAppImages s)" "path_equal os p (r_path (snd kv))"
    by (auto simp: find_Some_iff)
  have "registerAppImage os s p = (Thrown (AppImageAlreadyRegisteredError (fst kv)), s)"
    using assms(1) f by (simp add: registerAppImage_def)
  with kv show ?thesis
    by (intro exI [of _ "fst kv"] exI [of _ "snd kv"]) auto
qed

theorem C5_witness:
  "bf_exists example_os ''/a'' = Inr True
   \<and> (0, \<lparr>r_id = 0, r_path = ''/a'', r_fd = 3\<rparr>) \<in> set (registeredAppImages example_state)
   \<and> path_equal example_os ''/a'' ''/a''
   \<and> registerAppImage example_os example_state ''/a''
       = (Thrown (AppImageAlreadyRegisteredError 0), example_state)"
proof -
  have h: "bf_exists example_os ''/a'' = Inr True"
    "(0, \<lparr>r_id = 0, r_path = ''/a'', r_fd = 3\<rparr>) \<in> set (registeredAppImages example_state)"
    "path_equal example_os ''/a'' (r_path \<lparr>r_id = 0, r_path = ''/a'', r_fd = 3\<rparr>)"
    by (simp_all add: bf_exists_examples example_state_def example_os_fields same_elements_def)
  have u: "\<forall>kv \<in> set (registeredAppImages example_state).
      path_equal example_os ''/a'' (r_path (snd kv)) \<longrightarrow> fst kv = 0"
    by (simp add: example_state_def)
  from C5_register_again_already_registered [OF h] u h show ?thesis
    by (auto simp: example_state_def)
qed

text \<open>
  Claim C5 as stated fails once the file of the registered path has vanished: the
  existence check comes first, and the call throws \<^verbatim>\<open>FileNotFoundError\<close>.
\<close>

theorem C5_counterexample:
  "(0, \<lparr>r_id = 0, r_path = ''/a'', r_fd = 3\<rparr>) \<in> set (registeredAppImages example_state)
   \<and> registerAppImage vanished_os example_state ''/a'' = (Thrown FileNotFoundError, example_state)"
  using registerAppImage_vanished_file by (simp add: example_state_def)

text \<open>
  The search compares the path as given with the stored \<^verbatim>\<open>bf::absolute\<close> path, so a
  relative path is never found again: registering it twice gives two entries with one
  stored path.
\<close>

lemma registerAppImage_relative_path_twice:
  "registerAppImage example_os initial_state ''x.AppImage''
     = (Returned 0,
        \<lparr>registeredAppImages = [(0, \<lparr>r_id = 0, r_path = ''/home/u/x.AppImage'', r_fd = 3\<rparr>)],
         counter = 1\<rparr>)
   \<and> registerAppImage example_os
        \<lparr>registeredAppImages = [(0, \<lparr>r_id = 0, r_path = ''/home/u/x.AppImage'', r_fd = 3\<rparr>)],
         counter = 1\<rparr> ''x.AppImage''
     = (Returned 1,
        \<lparr>registeredAppImages = [(1, \<lparr>r_id = 1, r_path = ''/home/u/x.AppImage'', r_fd = 3\<rparr>),
                                (0, \<lparr>r_id = 0, r_path = ''/home/u/x.AppImage'', r_fd = 3\<rparr>)],
         counter = 2\<rparr>)"
  by (simp add: registerAppImage_def bf_exists_examples bf_absolute_def initial_state_def
      INT_MAX_def emplace_def same_elements_examples example_os_fields)

text \<open>
  Paths that differ as strings can be equal as paths: with a stored path that has a
  doubled separator, the id thrown is the one of the first equal entry in iteration order.
\<close>

lemma registerAppImage_doubled_separator:
  "registerAppImage example_os
        \<lparr>registeredAppImages = [(1, \<lparr>r_id = 1, r_path = ''/home/u//x.AppImage'', r_fd = 3\<rparr>),
                                (0, \<lparr>r_id = 0, r_path = ''/home/u/x.AppImage'', r_fd = 3\<rparr>)],
         counter = 2\<rparr> ''/home/u/x.AppImage''
     = (Thrown (AppImageAlreadyRegisteredError 1),
        \<lparr>registeredAppImages = [(1, \<lparr>r_id = 1, r_path = ''/home/u//x.AppImage'', r_fd = 3\<rparr>),
                                (0, \<lparr>r_id = 0, r_path = ''/home/u/x.AppImage'', r_fd = 3\<rparr>)],
         counter = 2\<rparr>)"
  by (simp add: registerAppImage_def bf_exists_examples same_elements_examples example_os_fields)

subsection \<open>Listing the root directory\<close>

lemma generateFilenameForId_inj:
  assumes "0 \<le> i" "0 \<le> j" "generateFilenameForId i = generateFilenameForId j"
  shows "i = j"
proof -
  from assms have "numeral_of i = numeral_of j"
    by (simp add: generateFilenameForId_nonneg)
  then have "digits_value (numeral_of i) = digits_value (numeral_of j)" by simp
  with assms(1,2) show ?thesis by (simp add: digits_value_numeral_of)
qed

lemma generateFilenameForId_length: "0 \<le> k \<Longrightarrow> 10 \<le> length (generateFilenameForId k)"
  using numeral_of_nonempty [of k]
  by (cases "numeral_of k") (simp_all add: generateFilenameForId_nonneg)

lemma fixed_names_short:
  "x \<in> set [''.'', ''..'', ''map'', ''register''] \<Longrightarrow> length x \<le> 8"
  by auto

lemma distinct_names:
  assumes "distinct (map fst m)" "\<forall>k \<in> fst ` set m. 0 \<le> k"
  shows "distinct (map (\<lambda>kv. generateFilenameForId (fst kv)) m)"
  using assms
proof (induction m)
  case Nil
  then show ?case by simp
next
  case (Cons a m)
  have "generateFilenameForId (fst a) \<notin> (\<lambda>kv. generateFilenameForId (fst kv)) ` set m"
  proof
    assume "generateFilenameForId (fst a) \<in> (\<lambda>kv. generateFilenameForId (fst kv)) ` set m"
    then obtain b where b: "b \<in> set m" "generateFilenameForId (fst a) = generateFilenameForId (fst b)"
      by auto
    from Cons.prems(2) b(1) have "0 \<le> fst a" "0 \<le> fst b" by auto
    with b(2) have "fst a = fst b" by (intro generateFilenameForId_inj)
    with b(1) Cons.prems(1) show False by force
  qed
  with Cons show ?case by simp
qed

text \<open>
  Claim C6, as amended. Listing the root directory returns 0 and yields exactly the names
  \<^verbatim>\<open>.\<close>, \<^verbatim>\<open>..\<close>, \<^verbatim>\<open>map\<close>, \<^verbatim>\<open>register\<close> and then the canonical name of every id
  that is in the registry at that moment, whether its file still exists or not
  (\<^verbatim>\<open>readdir\<close> looks at no file and evicts nothing); listing any other path returns
  \<^verbatim>\<open>-ENOENT\<close> and yields no name. With one entry per id and ids that are not negative,
  no name is listed twice.
\<close>

theorem C6_readdir_lists_every_registered_id:
  "readdir s ''/'' =
     (0, [''.'', ''..'', ''map'', ''register'']
         @ map (\<lambda>kv. generateFilenameForId (fst kv)) (registeredAppImages s))
   \<and> (path \<noteq> ''/'' \<longrightarrow> readdir s path = (- ENOENT, []))
   \<and> (distinct (map fst (registeredAppImages s)) \<and> (\<forall>k \<in> fst ` set (registeredAppImages s). 0 \<le> k)
        \<longrightarrow> distinct (snd (readdir s ''/'')))"
proof (intro conjI impI)
  show "readdir s ''/'' =
     (0, [''.'', ''..'', ''map'', ''register'']
         @ map (\<lambda>kv. generateFilenameForId (fst kv)) (registeredAppImages s))"
    by (simp add: readdir_def)
next
  assume "path \<noteq> ''/''"
  then show "readdir s path = (- ENOENT, [])" by (simp add: readdir_def)
next
  let ?fixed = "[''.'', ''..'', ''map'', ''register'']"
  let ?names = "map (\<lambda>kv. generateFilenameForId (fst kv)) (registeredAppImages s)"
  assume a: "distinct (map fst (registeredAppImages s)) \<and> (\<forall>k \<in> fst ` set (registeredAppImages s). 0 \<le> k)"
  then have d: "distinct ?names"
    by (simp add: distinct_names)
  have "set ?fixed \<inter> set ?names = {}"
  proof (rule ccontr)
    assume "set ?fixed \<inter> set ?names \<noteq> {}"
    then obtain x where x: "x \<in> set ?fixed" "x \<in> set ?names" by blast
    from x(2) obtain kv where kv: "kv \<in> set (registeredAppImages s)" "x = generateFilenameForId (fst kv)"
      by auto
    from a kv(1) have "0 \<le> fst kv" by auto
    then have "10 \<le> length x" unfolding kv(2) by (rule generateFilenameForId_length)
    with fixed_names_short [OF x(1)] show False by simp
  qed
  moreover have "distinct ?fixed" by simp
  ultimately have "distinct (?fixed @ ?names)"
    using d unfolding distinct_append by blast
  then show "distinct (snd (readdir s ''/''))" by (simp add: readdir_def)
qed

theorem C6_witness:
  "readdir example_state ''/'' = (0, [''.'', ''..'', ''map'', ''register'', ''0000.AppImage''])
   \<and> readdir example_state ''/map'' = (- ENOENT, [])
   \<and> distinct (snd (readdir example_state ''/''))"
proof -
  have h: "''/map'' \<noteq> ''/''"
    "distinct (map fst (registeredAppImages example_state))
      \<and> (\<forall>k \<in> fst ` set (registeredAppImages example_state). 0 \<le> k)"
    by (simp_all add: example_state_def)
  from C6_readdir_lists_every_registered_id [of example_state "''/map''"] h show ?thesis
    by (simp add: example_state_def generateFilenameForId_0)
qed

text \<open>
  Claim C6 as stated fails for a stale entry: the file of id \<open>0\<close> is gone, no lookup has
  evicted the entry yet, and the listing still holds its name.
\<close>

theorem C6_counterexample:
  "checkExistsOnDisk vanished_os \<lparr>r_id = 0, r_path = ''/a'', r_fd = 3\<rparr> = Inr False
   \<and> registeredAppImages example_state = [(0, \<lparr>r_id = 0, r_path = ''/a'', r_fd = 3\<rparr>)]
   \<and> readdir example_state ''/'' = (0, [''.'', ''..'', ''map'', ''register'', ''0000.AppImage''])"
  by (simp add: checkExistsOnDisk_examples readdir_def example_state_def generateFilenameForId_0)

subsection \<open>The ids of a run\<close>

lemma registerAppImage_counter:
  assumes "registerAppImage os s p = (out, s')" "counter s < INT_MAX"
  shows "counter s \<le> counter s'" "counter s' \<le> counter s + 1"
    "out = Returned i \<Longrightarrow> i = counter s \<and> counter s' = counter s + 1"
  using assms
  by (auto simp: registerAppImage_def Let_def split: sum.splits if_splits option.splits)

lemma mapPath_counter [simp]: "counter (snd (mapPathToRegisteredAppImage os s p)) = counter s"
  by (auto simp: mapPathToRegisteredAppImage_def Let_def split: list.splits sum.splits prod.splits)

lemma generateTextMap_counter [simp]: "counter (snd (generateTextMap os s)) = counter s"
  by (simp add: generateTextMap_def split: sum.splits prod.splits)

lemma step_Register:
  "step s (os, Register p) =
     (case fst (registerAppImage os s p) of Returned i \<Rightarrow> [i] | _ \<Rightarrow> [],
      snd (registerAppImage os s p))"
  by (cases "registerAppImage os s p"; cases "fst (registerAppImage os s p)") auto

lemma step_counter_all:
  assumes "counter s + int (registrations [x]) \<le> INT_MAX"
  shows "counter s \<le> counter (snd (step s x))
    \<and> counter (snd (step s x)) \<le> counter s + int (registrations [x])
    \<and> (fst (step s x) = []
         \<or> fst (step s x) = [counter s] \<and> counter (snd (step s x)) = counter s + 1)"
proof -
  obtain os op where x: "x = (os, op)" by (cases x)
  show ?thesis
  proof (cases op)
    case (Register p)
    obtain out s' where r: "registerAppImage os s p = (out, s')"
      by (cases "registerAppImage os s p")
    from assms x Register have c: "counter s < INT_MAX" by simp
    note rc = registerAppImage_counter [OF r c]
    show ?thesis
    proof (cases out)
      case (Returned i)
      with rc(3) [of i] rc(1,2) x Register r show ?thesis by (simp add: step_Register)
    next
      case (Thrown e)
      with rc(1,2) x Register r show ?thesis by (simp add: step_Register)
    next
      case Undefined
      with rc(1,2) x Register r show ?thesis by (simp add: step_Register)
    qed
  next
    case (Lookup p)
    with x show ?thesis by simp
  next
    case Render_listing
    with x show ?thesis by simp
  qed
qed

lemma step_counter:
  assumes "counter s + int (registrations [x]) \<le> INT_MAX"
  shows "counter s \<le> counter (snd (step s x))"
    and "counter (snd (step s x)) \<le> counter s + int (registrations [x])"
    and "fst (step s x) = []
         \<or> fst (step s x) = [counter s] \<and> counter (snd (step s x)) = counter s + 1"
  using step_counter_all [OF assms] by blast+

lemma registrations_Cons: "registrations (x # ops) = registrations [x] + registrations ops"
  by (cases x; cases "snd x") auto

lemma assigned_ids_increasing:
  assumes "counter s + int (registrations ops) \<le> INT_MAX"
  shows "sorted_wrt (<) (assigned_ids s ops) \<and> (\<forall>i \<in> set (assigned_ids s ops). counter s \<le> i)"
  using assms
proof (induction ops arbitrary: s)
  case Nil
  then show ?case by simp
next
  case (Cons x ops)
  let ?s' = "snd (step s x)"
  from Cons.prems have b: "counter s + int (registrations [x]) \<le> INT_MAX"
    by (simp add: registrations_Cons [of x ops])
  note sc = step_counter [OF b]
  from Cons.prems sc(2) have "counter ?s' + int (registrations ops) \<le> INT_MAX"
    by (simp add: registrations_Cons [of x ops])
  from Cons.IH [OF this]
  have IH: "sorted_wrt (<) (assigned_ids ?s' ops)" "\<forall>i \<in> set (assigned_ids ?s' ops). counter ?s' \<le> i"
    by simp_all
  from sc(3) show ?case
  proof
    assume "fst (step s x) = []"
    with IH sc(1) show ?thesis by auto
  next
    assume a: "fst (step s x) = [counter s] \<and> counter ?s' = counter s + 1"
    with IH(2) have "\<forall>i \<in> set (assigned_ids ?s' ops). counter s < i" by force
    with a IH(1) show ?thesis by (simp add: less_imp_le)
  qed
qed

lemma ids_below_counter_iff:
  "ids_below_counter s \<longleftrightarrow> (\<forall>kv \<in> set (registeredAppImages s). fst kv < counter s)"
  by (simp add: ids_below_counter_def list_all_iff)

lemma set_emplace: "set (emplace k v m) \<subseteq> insert (k, v) (set m)"
  by (auto simp: emplace_def split: option.splits)

lemma set_erase: "set (erase k m) \<subseteq> set m"
  by (auto simp: erase_def)

lemma set_fold_erase: "set (fold erase ks m) \<subseteq> set m"
proof (induction ks arbitrary: m)
  case Nil
  then show ?case by simp
next
  case (Cons k ks)
  have "set (fold erase ks (erase k m)) \<subseteq> set (erase k m)" by (rule Cons.IH)
  with set_erase [of k m] show ?case by auto
qed

lemma registerAppImage_invariant:
  assumes "registerAppImage os s p = (out, s')" "ids_below_counter s" "counter s < INT_MAX"
  shows "ids_below_counter s'"
proof -
  have "set (emplace (counter s)
          \<lparr>r_id = counter s, r_path = bf_absolute os p, r_fd = open_rdonly os (bf_absolute os p)\<rparr>
          (registeredAppImages s))
        \<subseteq> insert (counter s, \<lparr>r_id = counter s, r_path = bf_absolute os p,
                                 r_fd = open_rdonly os (bf_absolute os p)\<rparr>)
            (set (registeredAppImages s))"
    by (rule set_emplace)
  with assms show ?thesis
    by (fastforce simp: registerAppImage_def Let_def ids_below_counter_iff
        split: sum.splits if_splits option.splits)
qed

lemma mapPath_entries:
  "set (registeredAppImages (snd (mapPathToRegisteredAppImage os s p))) \<subseteq> set (registeredAppImages s)"
proof -
  have "set (registeredAppImages (snd
          (let (r, m) = index i (registeredAppImages s)
           in case checkExistsOnDisk os r of
                Inl e \<Rightarrow> (Thrown e, s\<lparr>registeredAppImages := m\<rparr>)
              | Inr found \<Rightarrow>
                  if \<not> found
                  then (Thrown CouldNotFindRegisteredAppImageError, s\<lparr>registeredAppImages := erase i m\<rparr>)
                  else (Returned r, s\<lparr>registeredAppImages := m\<rparr>))))
        \<subseteq> set (registeredAppImages s)" for i
    using set_erase [of i "registeredAppImages s"]
    by (auto simp: index_def checkExistsOnDisk_default erase_def split: option.splits sum.splits)
  then show ?thesis
    by (auto simp: mapPathToRegisteredAppImage_def split: list.splits sum.splits)
qed

lemma generateTextMap_entries:
  "set (registeredAppImages (snd (generateTextMap os s))) \<subseteq> set (registeredAppImages s)"
  using set_fold_erase [of _ "registeredAppImages s"]
  by (auto simp: generateTextMap_def split: sum.splits prod.splits)

lemma step_invariant:
  assumes "ids_below_counter s" "counter s + int (registrations [x]) \<le> INT_MAX"
  shows "ids_below_counter (snd (step s x))"
proof -
  obtain os op where x: "x = (os, op)" by (cases x)
  show ?thesis
  proof (cases op)
    case (Register p)
    obtain out s' where r: "registerAppImage os s p = (out, s')"
      by (cases "registerAppImage os s p")
    from assms(2) x Register have "counter s < INT_MAX" by simp
    from registerAppImage_invariant [OF r assms(1) this] x Register r show ?thesis
      by (cases out) (simp_all add: step_Register)
  next
    case (Lookup p)
    with x assms(1) mapPath_entries [of os s p] show ?thesis
      by (auto simp: ids_below_counter_iff)
  next
    case Render_listing
    with x assms(1) generateTextMap_entries [of os s] show ?thesis
      by (auto simp: ids_below_counter_iff)
  qed
qed

lemma final_state_invariant:
  assumes "ids_below_counter s" "counter s + int (registrations ops) \<le> INT_MAX"
  shows "ids_below_counter (final_state s ops) \<and> counter s \<le> counter (final_state s ops)"
  using assms
proof (induction ops arbitrary: s)
  case Nil
  then show ?case by simp
next
  case (Cons x ops)
  let ?s' = "snd (step s x)"
  from Cons.prems(2) have b: "counter s + int (registrations [x]) \<le> INT_MAX"
    by (simp add: registrations_Cons [of x ops])
  note sc = step_counter [OF b]
  from Cons.prems(2) sc(2) have b': "counter ?s' + int (registrations ops) \<le> INT_MAX"
    by (simp add: registrations_Cons [of x ops])
  from Cons.IH [OF step_invariant [OF Cons.prems(1) b] b'] sc(1) show ?case by simp
qed

lemma ids_below_counter_initial: "ids_below_counter initial_state"
  by (simp add: ids_below_counter_def initial_state_def)

text \<open>
  Claim C9, as amended. In every run of \<^verbatim>\<open>registerAppImage\<close>, lookup and listing
  (eviction) calls, from any state and over any sequence of disk states, that is too
  short for the counter to wrap around (the counter at the start plus the number of
  \<^verbatim>\<open>registerAppImage\<close> calls is at most \<open>INT_MAX\<close>), the ids that the successful
  \<^verbatim>\<open>registerAppImage\<close> calls return are strictly increasing, so no id is assigned
  twice, and none is below the counter at the start of the run. In a state whose
  registered ids are all below the counter (the initial state is one, and such a run
  keeps it so) each id assigned later is greater than every id registered now, whether or
  not that entry is evicted in between: the id of an evicted entry is not assigned again.
\<close>

theorem C9_assigned_ids_strictly_increasing:
  assumes "counter s + int (registrations ops) \<le> INT_MAX"
  shows "sorted_wrt (<) (assigned_ids s ops)
   \<and> distinct (assigned_ids s ops)
   \<and> (\<forall>i \<in> set (assigned_ids s ops). counter s \<le> i)
   \<and> (ids_below_counter s \<longrightarrow>
        (\<forall>kv \<in> set (registeredAppImages s). \<forall>i \<in> set (assigned_ids s ops). fst kv < i))
   \<and> (ids_below_counter s \<longrightarrow>
        ids_below_counter (final_state s ops) \<and> counter s \<le> counter (final_state s ops))"
proof -
  have inc: "sorted_wrt (<) (assigned_ids s ops)"
    and ge: "\<forall>i \<in> set (assigned_ids s ops). counter s \<le> i"
    using assigned_ids_increasing [OF assms] by simp_all
  from inc have "distinct (assigned_ids s ops)"
    by (simp add: strict_sorted_iff)
  moreover have "ids_below_counter s \<longrightarrow>
        (\<forall>kv \<in> set (registeredAppImages s). \<forall>i \<in> set (assigned_ids s ops). fst kv < i)"
    using ge by (fastforce simp: ids_below_counter_iff)
  moreover have "ids_below_counter s \<longrightarrow>
        ids_below_counter (final_state s ops) \<and> counter s \<le> counter (final_state s ops)"
    using final_state_invariant [OF _ assms] by blast
  ultimately show ?thesis using inc ge by blast
qed

lemma stoi_0000: "stoi (numeral_part ''0000.AppImage'') = Inr 0"
  by (simp add: numeral_part_def c_str_def NUL_def stoi_def isspace_def isdigit_def
      digits_value_def INT_MIN_def INT_MAX_def)

lemma example_run_steps:
  "registerAppImage example_os initial_state ''/a'' = (Returned 0, example_state)"
  "mapPathToRegisteredAppImage vanished_os example_state ''/0000.AppImage''
     = (Thrown CouldNotFindRegisteredAppImageError, \<lparr>registeredAppImages = [], counter = 1\<rparr>)"
  "registerAppImage example_os \<lparr>registeredAppImages = [], counter = 1\<rparr> ''/a''
     = (Returned 1, \<lparr>registeredAppImages = [(1, \<lparr>r_id = 1, r_path = ''/a'', r_fd = 3\<rparr>)], counter = 2\<rparr>)"
proof -
  show "registerAppImage example_os initial_state ''/a'' = (Returned 0, example_state)"
    by (simp add: registerAppImage_def bf_exists_examples bf_absolute_def example_os_fields
        initial_state_def example_state_def INT_MAX_def emplace_def)
  show "mapPathToRegisteredAppImage vanished_os example_state ''/0000.AppImage''
     = (Thrown CouldNotFindRegisteredAppImageError, \<lparr>registeredAppImages = [], counter = 1\<rparr>)"
    using mapPath_slash [of vanished_os example_state "''0000.AppImage''"]
    by (simp add: stoi_0000 generateFilenameForId_0 index_def example_state_def
        checkExistsOnDisk_examples erase_def)
  show "registerAppImage example_os \<lparr>registeredAppImages = [], counter = 1\<rparr> ''/a''
     = (Returned 1, \<lparr>registeredAppImages = [(1, \<lparr>r_id = 1, r_path = ''/a'', r_fd = 3\<rparr>)], counter = 2\<rparr>)"
    by (simp add: registerAppImage_def bf_exists_examples bf_absolute_def example_os_fields
        INT_MAX_def emplace_def)
qed

lemma example_run_ids: "assigned_ids initial_state example_run = [0, 1]"
  by (simp add: example_run_def example_run_steps)

lemma example_run_final:
  "final_state initial_state example_run
     = \<lparr>registeredAppImages = [(1, \<lparr>r_id = 1, r_path = ''/a'', r_fd = 3\<rparr>)], counter = 2\<rparr>"
  by (simp add: example_run_def example_run_steps)

theorem C9_witness:
  "counter initial_state + int (registrations example_run) \<le> INT_MAX
   \<and> assigned_ids initial_state example_run = [0, 1]
   \<and> sorted_wrt (<) (assigned_ids initial_state example_run)
   \<and> distinct (assigned_ids initial_state example_run)
   \<and> ids_below_counter initial_state
   \<and> final_state initial_state example_run
       = \<lparr>registeredAppImages = [(1, \<lparr>r_id = 1, r_path = ''/a'', r_fd = 3\<rparr>)], counter = 2\<rparr>
   \<and> ids_below_counter (final_state initial_state example_run)"
proof -
  have h: "counter initial_state + int (registrations example_run) \<le> INT_MAX"
    by (simp add: initial_state_def example_run_def INT_MAX_def)
  from C9_assigned_ids_strictly_increasing [OF h] ids_below_counter_initial h
    example_run_ids example_run_final
  show ?thesis by simp
qed

text \<open>
  Claim C9 as stated fails where the counter wraps around: with the counter at
  \<open>INT_MAX\<close>, two successful registrations are given the ids \<open>2147483647\<close> and
  \<open>- 2147483648\<close>, in this order.
\<close>

theorem C9_counterexample:
  "assigned_ids overflow_state overflow_run = [2147483647, - 2147483648]
   \<and> \<not> sorted_wrt (<) (assigned_ids overflow_state overflow_run)"
proof -
  have "registerAppImage example_os overflow_state ''/a''
      = (Returned 2147483647,
         \<lparr>registeredAppImages = [(2147483647, \<lparr>r_id = 2147483647, r_path = ''/a'', r_fd = 3\<rparr>)],
          counter = - 2147483648\<rparr>)"
    by (simp add: registerAppImage_def bf_exists_examples bf_absolute_def example_os_fields
        overflow_state_def INT_MAX_def INT_MIN_def emplace_def)
  moreover have "registerAppImage example_os
         \<lparr>registeredAppImages = [(2147483647, \<lparr>r_id = 2147483647, r_path = ''/a'', r_fd = 3\<rparr>)],
          counter = - 2147483648\<rparr> ''/b''
      = (Returned (- 2147483648),
         \<lparr>registeredAppImages = [(- 2147483648, \<lparr>r_id = - 2147483648, r_path = ''/b'', r_fd = 3\<rparr>),
                                 (2147483647, \<lparr>r_id = 2147483647, r_path = ''/a'', r_fd = 3\<rparr>)],
          counter = - 2147483647\<rparr>)"
    by (simp add: registerAppImage_def bf_exists_examples bf_absolute_def example_os_fields
        same_elements_examples INT_MAX_def INT_MIN_def emplace_def)
  ultimately have "assigned_ids overflow_state overflow_run = [2147483647, - 2147483648]"
    by (simp add: overflow_run_def)
  then show ?thesis by simp
qed

text \<open>
  The state of the counterexample is reached from the initial state: a registration whose
  \<^verbatim>\<open>open\<close> fails uses up an id and adds no entry.
\<close>

lemma failed_open_uses_up_an_id:
  assumes "c < INT_MAX"
  shows "registerAppImage unreadable_os \<lparr>registeredAppImages = [], counter = c\<rparr> ''/a''
           = (Thrown CouldNotOpenFileError, \<lparr>registeredAppImages = [], counter = c + 1\<rparr>)"
  using assms
  by (simp add: registerAppImage_def bf_exists_examples example_os_fields)

lemma counter_reached_by_failed_opens:
  "c + int n \<le> INT_MAX \<Longrightarrow>
   final_state \<lparr>registeredAppImages = [], counter = c\<rparr> (replicate n (unreadable_os, Register ''/a''))
     = \<lparr>registeredAppImages = [], counter = c + int n\<rparr>"
proof (induction n arbitrary: c)
  case 0
  then show ?case by simp
next
  case (Suc n)
  then have "c < INT_MAX" "(c + 1) + int n \<le> INT_MAX" by simp_all
  with Suc.IH [of "c + 1"] show ?case
    by (simp add: step_Register failed_open_uses_up_an_id add.assoc)
qed

lemma overflow_state_reachable:
  "final_state initial_state (replicate 2147483647 (unreadable_os, Register ''/a'')) = overflow_state"
  using counter_reached_by_failed_opens [of 0 2147483647]
  by (simp add: initial_state_def overflow_state_def INT_MAX_def)

subsection \<open>Reading a registered file\<close>

lemma load_store_bytes: "load_bytes (store_bytes mem a bs) a (length bs) = bs"
  by (rule nth_equalityI) (simp_all add: load_bytes_def store_bytes_def)

lemma read_after_magic_range_unmodified:
  assumes "magicBytesEnd < offset" and "int (length (take bufsize (drop (nat offset) content))) \<le> INT32_MAX"
  shows "bytes_received (handleReadRegisteredAppImage (Some content) mem buf bufsize offset) buf
           = take bufsize (drop (nat offset) content)"
  using assms load_store_bytes [of mem buf "take bufsize (drop (nat offset) content)"]
  by (simp add: bytes_received_def handleReadRegisteredAppImage_def pread_def Let_def
      magicBytesEnd_def)

lemma read_up_to_offset_8_blanks_range:
  assumes "0 \<le> offset" "offset \<le> magicBytesBegin" "2 \<le> bufsize"
    and "int (length (take bufsize (drop (nat offset) content))) \<le> INT32_MAX"
  shows "bytes_received (handleReadRegisteredAppImage (Some content) mem buf bufsize offset) buf
           = map (\<lambda>i. if magicBytesBegin \<le> offset + int i \<and> offset + int i \<le> magicBytesEnd
                        then NUL else content ! (nat offset + i))
               [0..<length (take bufsize (drop (nat offset) content))]"
proof -
  let ?bs = "take bufsize (drop (nat offset) content)"
  have m: "(magicBytesEnd - offset) mod SIZE_MOD = magicBytesEnd - offset"
    using assms(1,2) by (simp add: magicBytesEnd_def magicBytesBegin_def SIZE_MOD_def)
  have c: "min (min (magicBytesEnd - offset) 2) (int bufsize) + 1 = 3"
    using assms(1,2,3) by (simp add: magicBytesEnd_def magicBytesBegin_def)
  have r: "handleReadRegisteredAppImage (Some content) mem buf bufsize offset
      = (int (length ?bs), memset (store_bytes mem buf ?bs) (buf + (magicBytesBegin - offset)) NUL 3)"
    using assms m c
    by (simp add: handleReadRegisteredAppImage_def pread_def Let_def magicBytesEnd_def magicBytesBegin_def)
  show ?thesis
    unfolding r bytes_received_def
    by (rule nth_equalityI)
      (auto simp: load_bytes_def memset_def store_bytes_def magicBytesBegin_def magicBytesEnd_def
        add.commute)
qed

lemma upt_0_4: "[0..<4] = [0, 1, 2, 3]"
  by code_simp

text \<open>
  Claim C1 fails on the code. The marker of \<open>example_appimage\<close> is \<^verbatim>\<open>A I 0x02\<close> at the
  file positions 8, 9 and 10, the range that a read from offset 0 blanks. A read of four
  bytes at offset 10 returns the byte \<^verbatim>\<open>0x02\<close> of position 10 as it is in the file; a
  read of four bytes at offset 9 blanks position 9, returns position 10 as it is, and
  writes a zero to the address before the buffer (\<open>beg\<close> is \<open>- 1\<close>).
\<close>

theorem C1_last_magic_byte_not_blanked:
  "bytes_received (handleReadRegisteredAppImage (Some example_appimage) (\<lambda>a. CHR ''#'') 1000 4 10) 1000
     = [CHR 0x02, CHR 0x00, CHR 0x00, CHR 0x00]
   \<and> bytes_received (handleReadRegisteredAppImage (Some example_appimage) (\<lambda>a. CHR ''#'') 1000 4 9) 1000
     = [CHR 0x00, CHR 0x02, CHR 0x00, CHR 0x00]
   \<and> snd (handleReadRegisteredAppImage (Some example_appimage) (\<lambda>a. CHR ''#'') 1000 4 9) 999 = CHR 0x00"
  by (simp add: bytes_received_def handleReadRegisteredAppImage_def pread_def example_appimage_def
      store_bytes_def memset_def load_bytes_def magicBytesBegin_def magicBytesEnd_def
      INT32_MAX_def SIZE_MOD_def NUL_def upt_0_4)


subsection \<open>Reading the listing file and the registration file\<close>

lemma handleReadMap_first_read:
  assumes "generateTextMap os s = (Returned text_map, s')" and "int (min bufsize (length text_map)) \<le> INT32_MAX"
  shows "handleReadMap os s bufsize 0
           = (Returned (int (min bufsize (length text_map)), take bufsize text_map), s')"
proof -
  have "(min (int bufsize) (int (length text_map))) mod SIZE_MOD = int (min bufsize (length text_map))"
    using assms(2) by (auto simp: SIZE_MOD_def INT32_MAX_def min_def intro!: mod_pos_pos_trivial)
  with assms show ?thesis
    by (simp add: handleReadMap_def Let_def min_def)
qed

text \<open>
  Claim C3 fails on the code. The listing of \<open>example_state\<close> is 20 bytes long. A read
  with a buffer of 5 bytes at offset 10 lies inside it, and the claim gives it
  \<open>min 5 (20 - 10) = 5\<close> bytes; \<^verbatim>\<open>std::min(bufsize, map.size()) - offset\<close> is \<open>5 - 10\<close>,
  which wraps around in \<^verbatim>\<open>size_t\<close>, and the handler returns \<^verbatim>\<open>-EIO\<close>. A read with a
  buffer of 8 bytes at offset 4 returns 4 bytes where the claim gives it 8.
\<close>

theorem C3_window_inside_listing_is_EIO:
  "fst (generateTextMap example_os example_state) = Returned (''0000.AppImage -> /a'' @ [CHR 0x0A])
   \<and> fst (handleReadMap example_os example_state 5 10) = Returned (- EIO, [])
   \<and> fst (handleReadMap example_os example_state 8 4) = Returned (4, ''.App'')"
proof -
  have m: "generateTextMap example_os example_state
      = (Returned (''0000.AppImage -> /a'' @ [CHR 0x0A]), example_state)"
    by (simp add: generateTextMap_def example_state_def checkExistsOnDisk_examples
        generateFilenameForId_0)
  show ?thesis
    by (simp add: handleReadMap_def m SIZE_MOD_def INT32_MAX_def)
qed

lemma length_REGISTER_MSG: "length REGISTER_MSG = 80"
  by (simp add: REGISTER_MSG_def)

lemma handleWriteRegister_at_offset_0:
  "handleWriteRegister buf bufsize 0
     = Returned (int (min bufsize (length REGISTER_MSG)), take bufsize REGISTER_MSG)"
proof -
  have "min (int bufsize) 80 mod SIZE_MOD = min (int bufsize) 80"
    by (auto simp: SIZE_MOD_def min_def intro!: mod_pos_pos_trivial)
  then show ?thesis
    by (auto simp: handleWriteRegister_def Let_def length_REGISTER_MSG INT32_MAX_def min_def)
qed

text \<open>
  Claim C4 fails on the code. With a buffer of 60 bytes and offset 20 the handler copies the
  first 40 bytes of the message to offset 20 of the buffer and returns 40: the reader gets
  20 bytes that were in the buffer before, then the first 20 bytes of the message, where
  the claim gives it the bytes 20 to 59 of the message.
\<close>

theorem C4_message_copied_to_offset_of_buffer:
  "handleWriteRegister (replicate 60 (CHR ''#'')) 60 20
     = Returned (40, replicate 20 (CHR ''#'') @ ''Write paths to AppIm'')
   \<and> take 40 (drop 20 REGISTER_MSG) = ''ages into this virtual file, one per lin''"
  by (simp add: handleWriteRegister_def REGISTER_MSG_def SIZE_MOD_def INT32_MAX_def)


subsection \<open>Closing the registration file\<close>

lemma bf_exists_Inl: "bf_exists os p = Inl e \<Longrightarrow> e = Boost_filesystem_error"
  by (auto simp: bf_exists_def bf_status_def split: if_splits)

lemma strip_back_replicate:
  assumes "0 < n" "c \<noteq> CHR 0x0A" "c \<noteq> CHR 0x0D"
  shows "strip_back (replicate n c @ ys) = Some (replicate n c @ ys)"
  using assms by (cases n) simp_all

lemma registerAppImage_outcomes:
  assumes "registerAppImage os s p = (out, s')"
  shows "out \<noteq> Undefined"
    and "out = Thrown e \<Longrightarrow> bf_exists os p \<noteq> Inl Boost_filesystem_error
           \<Longrightarrow> is_AppImageLauncherFSError e"
  using assms
  by (auto simp: registerAppImage_def Let_def dest: bf_exists_Inl
      split: sum.splits if_splits option.splits)

lemma release_absorbs_registration_errors:
  assumes "heap fh = Some buf" "fh \<noteq> 0" "strip_line_end buf = Some requestedPath"
    and "registerAppImage os s requestedPath = (out, s')"
    and "bf_exists os requestedPath \<noteq> Inl Boost_filesystem_error"
  shows "release os s heap ''/register'' fh = (Returned 0, s', heap(fh := None), 0)"
proof (cases out)
  case (Returned i)
  with assms show ?thesis by (simp add: release_def)
next
  case (Thrown e)
  from registerAppImage_outcomes(2) [OF assms(4) Thrown assms(5)]
  have "is_AppImageLauncherFSError e" .
  with Thrown assms show ?thesis by (simp add: release_def)
next
  case Undefined
  with registerAppImage_outcomes(1) [OF assms(4)] show ?thesis by simp
qed

text \<open>
  A \<^verbatim>\<open>bf::filesystem_error\<close> of the registration is not an
  \<^verbatim>\<open>AppImageLauncherFSError\<close>: it leaves \<^verbatim>\<open>release\<close>, and the buffer is not freed.
\<close>

lemma release_filesystem_error_escapes:
  "release example_os example_state [1 \<mapsto> too_long_name] ''/register'' 1
     = (Thrown Boost_filesystem_error, example_state, [1 \<mapsto> too_long_name], 1)"
proof -
  have "strip_line_end too_long_name = Some too_long_name"
    by (simp add: strip_line_end_def too_long_name_def strip_back_replicate)
  moreover have "registerAppImage example_os example_state too_long_name
      = (Thrown Boost_filesystem_error, example_state)"
    by (simp add: registerAppImage_def bf_exists_examples)
  ultimately show ?thesis by (simp add: release_def)
qed

text \<open>
  Claim C8 fails on the code for a handle on which nothing, or nothing but line ends, was
  written: \<^verbatim>\<open>requestedPath.back()\<close> is then evaluated on an empty string, which is
  undefined behaviour, before any registration is tried.
\<close>

theorem C8_release_of_blank_buffer_undefined:
  "fst (release example_os example_state [1 \<mapsto> []] ''/register'' 1) = Undefined
   \<and> fst (release example_os example_state [1 \<mapsto> [CHR 0x0A]] ''/register'' 1) = Undefined"
  by (simp add: release_def strip_line_end_def)

end
